theory Spec2Isabelle
  imports Main
begin

section \<open>The history hook of \<open>src/index.ts\<close>\<close>

text \<open>
  \<open>useHistoryState(value, size = 20)\<close> keeps a record \<open>{past, present, future}\<close> in a
  \<open>useReducer\<close> cell and hands out \<open>setState\<close>, \<open>undo\<close>, \<open>redo\<close> and \<open>reset\<close>, each wrapped
  in \<open>useCallback\<close>. The embedding has two layers:
  \<^item> the pure \<open>reducer\<close> with the JavaScript array primitives it uses (\<open>slice\<close> and an
    indexed read, whose out-of-range result is \<open>undefined\<close>);
  \<^item> the hook instance: the reducer cell with its queue of dispatched actions, and the
    memo cells of \<open>useCallback\<close>, so that what each callback closed over is part of the
    state.

  \<open>size\<close> is a JavaScript number; the model takes it as an integer (\<open>slice\<close> truncates its
  argument to an integer anyway). Every render of the hook has its own arguments \<open>value\<close>
  and \<open>size\<close>, and a call of a callback only queues its action: the reducer runs at the next
  render, so several calls made between two renders all see the callbacks of one render.
\<close>

subsection \<open>JavaScript values and arrays\<close>

text \<open>A value of the type parameter \<open>T\<close>, or \<open>undefined\<close> (what a read past the end gives).\<close>

datatype 'a js = Undefined | Val 'a

text \<open>
  The clamping of a relative index of \<open>Array.prototype.slice\<close>: a negative index counts
  from the end, and the result is clamped to \<open>0 .. len\<close>. \<open>-0\<close> is \<open>0\<close>.
\<close>

definition slice_index :: "nat \<Rightarrow> int \<Rightarrow> nat" where
  "slice_index len rel =
     (if rel < 0 then nat (max (int len + rel) 0) else nat (min rel (int len)))"

text \<open>\<open>xs.slice(start)\<close> is \<open>slice xs start None\<close>; \<open>xs.slice(start, fin)\<close> is \<open>slice xs start (Some fin)\<close>.\<close>

definition slice :: "'a list \<Rightarrow> int \<Rightarrow> int option \<Rightarrow> 'a list" where
  "slice xs start fin =
     (let len = length xs;
          k = slice_index len start;
          final = (case fin of None \<Rightarrow> len | Some e \<Rightarrow> slice_index len e)
      in take (final - k) (drop k xs))"

text \<open>\<open>xs[i]\<close>: \<open>undefined\<close> outside \<open>0 .. length - 1\<close>.\<close>

definition js_index :: "'a js list \<Rightarrow> int \<Rightarrow> 'a js" where
  "js_index xs i = (if 0 \<le> i \<and> i < int (length xs) then xs ! nat i else Undefined)"

subsection \<open>State, actions and the reducer\<close>

record 'a IState =
  past :: "'a js list"
  present :: "'a js"
  future :: "'a js list"

datatype 'a Action =
    SET "'a js"
  | SET_NOT_UNDOABLE "'a js"
  | UNDO
  | REDO
  | RESET

definition default_size :: int where
  "default_size = 20"

definition initState :: "'a js \<Rightarrow> 'a IState" where
  "initState value = \<lparr>past = [], present = value, future = []\<rparr>"

text \<open>
  \<open>initState\<close> and the reducer are built anew by every run of the hook's body, from the
  \<open>value\<close> and \<open>size\<close> of that run; they are parameters here. The \<open>default\<close> branch of the
  \<open>switch\<close> is not reachable: \<open>Action\<close> has the five tags only.
\<close>

fun reducer :: "'a js \<Rightarrow> int \<Rightarrow> 'a IState \<Rightarrow> 'a Action \<Rightarrow> 'a IState" where
  "reducer value size' state (SET payload) =
     state\<lparr>past := slice (past state) (- size') None @ [present state],
           present := payload\<rparr>"
| "reducer value size' state (SET_NOT_UNDOABLE payload) =
     state\<lparr>present := payload\<rparr>"
| "reducer value size' state UNDO =
     \<lparr>past = slice (past state) 0 (Some (int (length (past state)) - 1)),
      present = js_index (past state) (int (length (past state)) - 1),
      future = future state @ [present state]\<rparr>"
| "reducer value size' state REDO =
     \<lparr>past = slice (past state) size' None @ [present state],
      present = js_index (future state) (int (length (future state)) - 1),
      future = slice (future state) 0 (Some (int (length (future state)) - 1))\<rparr>"
| "reducer value size' state RESET = initState value"

subsection \<open>The hook instance\<close>

text \<open>
  \<open>useReducer(reducer, initialState)\<close>: the first render starts the cell at \<open>initialState\<close>; a
  later render applies the reducer it is given to the actions dispatched since the last
  render, in the order of their dispatch. The cell is given as the state of the last
  render with the queue.
\<close>

definition useReducer :: "('s \<Rightarrow> 'act \<Rightarrow> 's) \<Rightarrow> 's \<Rightarrow> ('s \<times> 'act list) option \<Rightarrow> 's" where
  "useReducer r initialState cell =
     (case cell of
        None \<Rightarrow> initialState
      | Some (s, pending) \<Rightarrow> foldl r s pending)"

text \<open>
  \<open>useCallback(fn, deps)\<close>: on the first render the function and its dependencies are
  stored; on a later render the stored function is returned as long as the
  dependencies are the same, and replaced otherwise. A function is represented by the
  variables of the render it closed over.
\<close>

definition useCallback :: "'f \<Rightarrow> 'd \<Rightarrow> ('f \<times> 'd) option \<Rightarrow> 'f \<times> 'd" where
  "useCallback fn deps memo =
     (case memo of
        None \<Rightarrow> (fn, deps)
      | Some (fn0, deps0) \<Rightarrow> if deps0 = deps then (fn0, deps0) else (fn, deps))"

text \<open>
  What React keeps for one call site of the hook: the reducer cell (the state of the last
  render and the actions dispatched since), and one memo cell for each callback that
  reads a variable of its render: \<open>setState\<close> reads \<open>state\<close> and has the dependencies \<open>[]\<close>,
  \<open>undo\<close> reads \<open>canUndo\<close> and has \<open>[canUndo]\<close>, \<open>redo\<close> reads \<open>canRedo\<close> and has \<open>[canRedo]\<close>.
  (\<open>reset\<close> reads only \<open>dispatch\<close>, which never changes.)
\<close>

record 'a Hook =
  state :: "'a IState"
  queue :: "'a Action list"
  setState_cb :: "'a IState \<times> unit"
  undo_cb :: "bool \<times> bool"
  redo_cb :: "bool \<times> bool"

text \<open>
  One run of the hook's body with the arguments \<open>value\<close> and \<open>size\<close>: the first render when
  there is no hook yet, a later render otherwise.
\<close>

definition useHistoryState :: "'a js \<Rightarrow> int \<Rightarrow> 'a Hook option \<Rightarrow> 'a Hook" where
  "useHistoryState value size' prev =
     (let state0 = useReducer (reducer value size') (initState value)
                     (map_option (\<lambda>h. (state h, queue h)) prev);
          canUndo = (length (past state0) \<noteq> 0);
          canRedo = (length (future state0) \<noteq> 0)
      in \<lparr>state = state0,
          queue = [],
          setState_cb = useCallback state0 () (map_option setState_cb prev),
          undo_cb = useCallback canUndo canUndo (map_option undo_cb prev),
          redo_cb = useCallback canRedo canRedo (map_option redo_cb prev)\<rparr>)"

text \<open>\<open>dispatch(action)\<close> queues the action for the next render.\<close>

definition dispatch :: "'a Hook \<Rightarrow> 'a Action \<Rightarrow> 'a Hook" where
  "dispatch h action = h\<lparr>queue := queue h @ [action]\<rparr>"

text \<open>
  The argument of \<open>setState\<close>: a value or an updater. \<open>isFunc\<close> is the \<open>typeof\<close> test; where
  it has narrowed the union, \<open>the_func\<close> and \<open>the_value\<close> read the argument.
\<close>

datatype 'a Arg = Lit (the_value: "'a js") | Fn (the_func: "'a js \<Rightarrow> 'a js")

fun isFunc :: "'a Arg \<Rightarrow> bool" where
  "isFunc (Fn f) = True"
| "isFunc (Lit v) = False"

datatype Error = Error string

text \<open>
  The callbacks, as the caller gets them from the latest render. \<open>state\<close>, \<open>canUndo\<close> and
  \<open>canRedo\<close> in their bodies are the variables of the render that created the memoized
  function: the first component of the memo cell. A callback that throws has dispatched
  nothing, so the hook is returned as it was.
\<close>

definition setState :: "'a Hook \<Rightarrow> 'a Arg \<Rightarrow> bool \<Rightarrow> 'a Hook" where
  "setState h payload notUndoAble =
     (let state0 = fst (setState_cb h);
          newState = (if isFunc payload then the_func payload (present state0)
                      else the_value payload);
          action = (if notUndoAble then SET_NOT_UNDOABLE newState else SET newState)
      in dispatch h action)"

definition undo :: "'a Hook \<Rightarrow> (Error + unit) \<times> 'a Hook" where
  "undo h =
     (let canUndo = fst (undo_cb h)
      in if canUndo then (Inr (), dispatch h UNDO)
         else (Inl (Error ''Undo not allowed''), h))"

definition redo :: "'a Hook \<Rightarrow> (Error + unit) \<times> 'a Hook" where
  "redo h =
     (let canRedo = fst (redo_cb h)
      in if canRedo then (Inr (), dispatch h REDO)
         else (Inl (Error ''Redo not allowed''), h))"

definition reset :: "'a Hook \<Rightarrow> 'a Hook" where
  "reset h = dispatch h RESET"

subsection \<open>Sequences of calls and renders\<close>

text \<open>
  A caller's use of the hook: calls of the callbacks of the latest render, and renders,
  each with the arguments the hook is called with then. Calls with no render between them
  are the calls of one event handler. A call that throws leaves the hook as it was and
  the caller goes on.
\<close>

datatype 'a Command = SetState "'a Arg" bool | Undo | Redo | Reset

datatype 'a Event = Call "'a Command" | Render "'a js" int

fun call :: "'a Hook \<Rightarrow> 'a Command \<Rightarrow> (Error + unit) \<times> 'a Hook" where
  "call h (SetState payload notUndoAble) = (Inr (), setState h payload notUndoAble)"
| "call h Undo = undo h"
| "call h Redo = redo h"
| "call h Reset = (Inr (), reset h)"

fun step :: "'a Hook \<Rightarrow> 'a Event \<Rightarrow> 'a Hook" where
  "step h (Call c) = snd (call h c)"
| "step h (Render value size') = useHistoryState value size' (Some h)"

fun run :: "'a Hook \<Rightarrow> 'a Event list \<Rightarrow> 'a Hook" where
  "run h [] = h"
| "run h (e # es) = run (step h e) es"

text \<open>The hooks a caller can see: the hook of the first render after any list of events.\<close>

definition history :: "'a js \<Rightarrow> int \<Rightarrow> 'a Event list \<Rightarrow> 'a Hook" where
  "history value size' es = run (useHistoryState value size' None) es"


text \<open>
  The invariant of the memo cells: \<open>setState\<close> still holds the \<open>state\<close> of the first render,
  while \<open>undo\<close> and \<open>redo\<close> hold the flags of the latest one.
\<close>

definition synced :: "'a js \<Rightarrow> 'a Hook \<Rightarrow> bool" where
  "synced value h =
     (fst (setState_cb h) = initState value \<and>
      undo_cb h = (past (state h) \<noteq> [], past (state h) \<noteq> []) \<and>
      redo_cb h = (future (state h) \<noteq> [], future (state h) \<noteq> []))"

section \<open>Properties\<close>

subsection \<open>Array primitives\<close>

lemma slice_from: "0 \<le> n \<Longrightarrow> slice xs n None = drop (nat n) xs"
  by (simp add: slice_def slice_index_def Let_def min_def)

lemma slice_last: "0 < n \<Longrightarrow> slice xs (- n) None = drop (length xs - nat n) xs"
  by (auto simp: slice_def slice_index_def Let_def max_def nat_diff_distrib'
        intro: arg_cong2[where f=drop])

text \<open>\<open>xs.slice(-0)\<close> is \<open>xs.slice(0)\<close>: the whole array, not its last zero elements.\<close>

lemma slice_minus_zero: "slice xs (- 0) None = xs"
  by (simp add: slice_def slice_index_def)

lemma slice_butlast: "slice xs 0 (Some (int (length xs) - 1)) = butlast xs"
  by (cases "xs = []")
     (auto simp: slice_def slice_index_def Let_def butlast_conv_take min_def nat_diff_distrib')

lemma js_index_last: "xs \<noteq> [] \<Longrightarrow> js_index xs (int (length xs) - 1) = last xs"
  by (auto simp: js_index_def last_conv_nth nat_diff_distrib')

subsection \<open>The reducer\<close>

lemma reducer_UNDO:
  "past s \<noteq> [] \<Longrightarrow>
   reducer value size' s UNDO =
     \<lparr>past = butlast (past s), present = last (past s), future = future s @ [present s]\<rparr>"
  by (simp add: slice_butlast js_index_last)

lemma reducer_REDO:
  "future s \<noteq> [] \<Longrightarrow> 0 \<le> size' \<Longrightarrow>
   reducer value size' s REDO =
     \<lparr>past = drop (nat size') (past s) @ [present s], present = last (future s),
      future = butlast (future s)\<rparr>"
  by (simp add: slice_butlast js_index_last slice_from)

lemma present_REDO:
  "future s \<noteq> [] \<Longrightarrow> present (reducer value size' s REDO) = last (future s)"
  by (simp add: js_index_last)

text \<open>With \<open>size = 0\<close> an undoable set keeps the whole of \<open>past\<close>.\<close>

lemma reducer_SET_size_zero:
  "past (reducer value 0 s (SET v)) = past s @ [present s]"
  using slice_minus_zero[of "past s"] by simp



subsection \<open>The hook\<close>

lemmas hook_defs = history_def useHistoryState_def useReducer_def useCallback_def
  initState_def setState_def dispatch_def undo_def redo_def reset_def slice_def
  slice_index_def js_index_def Let_def default_size_def

lemma state_render:
  "state (useHistoryState value size' (Some h)) = foldl (reducer value size') (state h) (queue h)"
  by (simp add: useHistoryState_def useReducer_def Let_def)

lemma state_mount: "state (useHistoryState value size' None) = initState value"
  by (simp add: useHistoryState_def useReducer_def Let_def)

lemma queue_render: "queue (useHistoryState value size' prev) = []"
  by (simp add: useHistoryState_def Let_def)

lemma state_dispatch: "state (dispatch h a) = state h"
  by (simp add: dispatch_def)

lemma queue_dispatch: "queue (dispatch h a) = queue h @ [a]"
  by (simp add: dispatch_def)

text \<open>A render with nothing queued keeps the state.\<close>

lemma render_idle: "queue h = [] \<Longrightarrow> state (useHistoryState value size' (Some h)) = state h"
  by (simp add: state_render)

text \<open>The render after a dispatch: the action is applied last.\<close>

lemma render_dispatch:
  "state (useHistoryState value size' (Some (dispatch h a))) =
     reducer value size' (state (useHistoryState value size' (Some h))) a"
  by (simp add: state_render state_dispatch queue_dispatch)

lemma setState_Lit:
  "setState h (Lit v) n = dispatch h (if n then SET_NOT_UNDOABLE v else SET v)"
  by (simp add: setState_def Let_def)

lemma synced_mount: "synced value (useHistoryState value size' None)"
  by (simp add: synced_def useHistoryState_def useReducer_def useCallback_def Let_def)

lemma synced_render: "synced value h \<Longrightarrow> synced value (useHistoryState value' size' (Some h))"
  by (auto simp: synced_def useHistoryState_def useCallback_def Let_def)

lemma synced_dispatch: "synced value h \<Longrightarrow> synced value (dispatch h a)"
  by (simp add: synced_def dispatch_def)

lemma synced_call: "synced value h \<Longrightarrow> synced value (snd (call h c))"
  by (cases c) (simp_all add: setState_def undo_def redo_def reset_def Let_def synced_dispatch)

lemma synced_step: "synced value h \<Longrightarrow> synced value (step h e)"
  by (cases e) (simp_all add: synced_call synced_render)

lemma synced_run: "synced value h \<Longrightarrow> synced value (run h es)"
  by (induction es arbitrary: h) (simp_all add: synced_step)

lemma synced_history: "synced value (history value size' es)"
  by (simp add: history_def synced_run synced_mount)

text \<open>The guards of \<open>undo\<close> and \<open>redo\<close> test the state of the latest render.\<close>

lemma undo_synced:
  "synced value h \<Longrightarrow>
   undo h =
     (if past (state h) = [] then (Inl (Error ''Undo not allowed''), h)
      else (Inr (), dispatch h UNDO))"
  by (simp add: undo_def synced_def Let_def)

lemma redo_synced:
  "synced value h \<Longrightarrow>
   redo h =
     (if future (state h) = [] then (Inl (Error ''Redo not allowed''), h)
      else (Inr (), dispatch h REDO))"
  by (simp add: redo_def synced_def Let_def)

text \<open>
  The memoized \<open>setState\<close> applies an updater to the \<open>present\<close> of the first render, which
  is the \<open>value\<close> of that render, whatever the reducer cell holds by now.
\<close>

lemma setState_synced:
  "synced value h \<Longrightarrow> setState h (Fn f) n = setState h (Lit (f value)) n"
  by (simp add: setState_def synced_def Let_def initState_def)





lemma run_append: "run h (es @ es') = run (run h es) es'"
  by (induction es arbitrary: h) simp_all

text \<open>
  The length of \<open>past\<close> after \<open>n + 1\<close> undoable sets of a literal value, each followed by a
  render.
\<close>

lemma run_sets:
  "0 < size' \<Longrightarrow> queue h = [] \<Longrightarrow>
   queue (run h (concat (replicate (Suc n)
      [Call (SetState (Lit v) False), Render value size']))) = [] \<and>
   length (past (state (run h (concat (replicate (Suc n)
      [Call (SetState (Lit v) False), Render value size']))))) =
     min (length (past (state h)) + Suc n) (nat size' + 1)"
proof (induction n arbitrary: h)
  case 0
  then show ?case
    by (auto simp: setState_Lit state_render queue_render state_dispatch queue_dispatch
          slice_last)
next
  case (Suc n)
  let ?es = "[Call (SetState (Lit v) False), Render value size']"
  let ?h1 = "run h ?es"
  have q: "queue ?h1 = []" by (simp add: queue_render)
  have l: "length (past (state ?h1)) = min (length (past (state h)) + 1) (nat size' + 1)"
    using Suc.prems
    by (auto simp: setState_Lit state_render state_dispatch queue_dispatch slice_last)
  have "run h (concat (replicate (Suc (Suc n)) ?es)) = run ?h1 (concat (replicate (Suc n) ?es))"
    by simp
  moreover have "queue (run ?h1 (concat (replicate (Suc n) ?es))) = [] \<and>
      length (past (state (run ?h1 (concat (replicate (Suc n) ?es))))) =
        min (length (past (state ?h1)) + Suc n) (nat size' + 1)"
    using Suc.IH[OF Suc.prems(1) q] .
  ultimately show ?case using l by (simp only: min_add_distrib_left) auto
qed

section \<open>The claims\<close>

subsection \<open>The bound on \<open>past\<close>\<close>

text \<open>
  C1 states that the length of \<open>past\<close> never exceeds the capacity. The code does not keep
  that bound: an undoable set keeps the last \<open>size\<close> entries of \<open>past\<close> and then appends the old
  \<open>present\<close>, so \<open>past\<close> reaches \<open>size + 1\<close> entries. With \<open>size = 2\<close>, three undoable sets
  (each followed by its render) leave three entries in \<open>past\<close>; with the default size of
  20, twenty-one sets leave twenty-one.
\<close>

theorem past_exceeds_size:
  "past (state (history (Val (0::int)) 2
      [Call (SetState (Lit (Val 1)) False), Render (Val 0) 2,
       Call (SetState (Lit (Val 2)) False), Render (Val 0) 2,
       Call (SetState (Lit (Val 3)) False), Render (Val 0) 2])) = [Val 0, Val 1, Val 2] \<and>
   length (past (state (history (Val (0::int)) default_size
      (concat (replicate 21
         [Call (SetState (Lit (Val 1)) False), Render (Val 0) default_size]))))) = 21"
proof
  show "past (state (history (Val (0::int)) 2
      [Call (SetState (Lit (Val 1)) False), Render (Val 0) 2,
       Call (SetState (Lit (Val 2)) False), Render (Val 0) 2,
       Call (SetState (Lit (Val 3)) False), Render (Val 0) 2])) = [Val 0, Val 1, Val 2]"
    by (simp add: hook_defs)
next
  have "(21::nat) = Suc 20" by simp
  then show "length (past (state (history (Val (0::int)) default_size
      (concat (replicate 21
         [Call (SetState (Lit (Val 1)) False), Render (Val 0) default_size]))))) = 21"
    using run_sets[of default_size "useHistoryState (Val (0::int)) default_size None" 20
        "Val 1" "Val 0"]
    by (simp add: history_def default_size_def queue_render state_mount initState_def
          del: replicate.simps concat.simps)
qed



subsection \<open>The transitions\<close>

text \<open>
  C2 states that redo appends the old \<open>present\<close> onto \<open>past\<close> and drops only the entries beyond
  the capacity from the front. The code takes \<open>past.slice(size)\<close>, which drops the first
  \<open>size\<close> entries instead of keeping the last \<open>size\<close>: with the default size, after
  \<open>set(1)\<close>, \<open>set(2)\<close>, \<open>undo()\<close> the state is \<open>past = [0]\<close>, \<open>present = 1\<close>, \<open>future = [2]\<close>, and
  \<open>redo()\<close> leaves \<open>past = [1]\<close>, not \<open>[0, 1]\<close>. In general the new \<open>past\<close> is the old one
  without its first twenty entries, followed by the old \<open>present\<close>.
\<close>

theorem redo_drops_past:
  "state (history (Val (0::int)) default_size
      [Call (SetState (Lit (Val 1)) False), Render (Val 0) default_size,
       Call (SetState (Lit (Val 2)) False), Render (Val 0) default_size,
       Call Undo, Render (Val 0) default_size]) =
     \<lparr>past = [Val 0], present = Val 1, future = [Val 2]\<rparr> \<and>
   state (history (Val (0::int)) default_size
      [Call (SetState (Lit (Val 1)) False), Render (Val 0) default_size,
       Call (SetState (Lit (Val 2)) False), Render (Val 0) default_size,
       Call Undo, Render (Val 0) default_size,
       Call Redo, Render (Val 0) default_size]) =
     \<lparr>past = [Val 1], present = Val 2, future = []\<rparr> \<and>
   past (reducer value default_size s REDO) = drop 20 (past s) @ [present s]"
proof (intro conjI)
  show "past (reducer value default_size s REDO) = drop 20 (past s) @ [present s]"
    by (simp add: default_size_def slice_from)
qed (simp_all add: hook_defs)

text \<open>
  C3: for a positive \<open>size\<close>, an undoable set with the resolved input \<open>v\<close> makes \<open>past\<close> the
  last \<open>size\<close> entries of the old \<open>past\<close> followed by the old \<open>present\<close>, makes \<open>present\<close> equal
  to \<open>v\<close> and leaves \<open>future\<close> as it was; \<open>setState\<close> with a literal \<open>v\<close> has exactly this
  transition applied by the next render.
\<close>

theorem set_undoable:
  assumes "0 < size'"
  shows "past (reducer value size' s (SET v)) =
           drop (length (past s) - nat size') (past s) @ [present s] \<and>
         present (reducer value size' s (SET v)) = v \<and>
         future (reducer value size' s (SET v)) = future s \<and>
         state (useHistoryState value size' (Some (setState h (Lit v) False))) =
           reducer value size' (state (useHistoryState value size' (Some h))) (SET v)"
  using assms by (simp add: slice_last setState_Lit render_dispatch del: reducer.simps)
    (simp add: slice_last)

theorem set_undoable_witness:
  "(0::int) < 2 \<and>
   reducer (Val (0::int)) 2 \<lparr>past = [Val 0, Val 1, Val 2], present = Val 3, future = [Val 9]\<rparr>
     (SET (Val 4)) = \<lparr>past = [Val 1, Val 2, Val 3], present = Val 4, future = [Val 9]\<rparr>"
  using set_undoable[of 2 "Val (0::int)"
      "\<lparr>past = [Val 0, Val 1, Val 2], present = Val 3, future = [Val 9]\<rparr>" "Val 4"]
  by simp

text \<open>
  C4: in a state with a non-empty \<open>past\<close>, undo makes \<open>present\<close> the last entry of \<open>past\<close>,
  appends the old \<open>present\<close> to \<open>future\<close> and leaves in \<open>past\<close> all but its last entry. On a
  hook whose latest render has this state, \<open>undo\<close> returns normally and the next render
  applies the transition after the actions that were already queued.
\<close>

theorem undo_effect:
  assumes "past s \<noteq> []"
  shows "reducer value size' s UNDO =
           \<lparr>past = butlast (past s), present = last (past s),
            future = future s @ [present s]\<rparr> \<and>
         (state (history value0 size0 es) = s \<longrightarrow>
          fst (undo (history value0 size0 es)) = Inr () \<and>
          state (useHistoryState value size' (Some (snd (undo (history value0 size0 es))))) =
            reducer value size' (state (useHistoryState value size'
              (Some (history value0 size0 es)))) UNDO)"
proof (intro conjI impI)
  show "reducer value size' s UNDO =
           \<lparr>past = butlast (past s), present = last (past s),
            future = future s @ [present s]\<rparr>"
    using assms by (rule reducer_UNDO)
next
  let ?h = "history value0 size0 es"
  assume s: "state ?h = s"
  have "synced value0 ?h" by (rule synced_history)
  then have u: "undo ?h = (Inr (), dispatch ?h UNDO)"
    using assms s by (simp add: undo_synced)
  then show "fst (undo ?h) = Inr ()" by simp
  show "state (useHistoryState value size' (Some (snd (undo ?h)))) =
      reducer value size' (state (useHistoryState value size' (Some ?h))) UNDO"
    using u by (simp only: snd_conv render_dispatch)
qed

theorem undo_effect_witness:
  "state (history (Val (0::int)) default_size
      [Call (SetState (Lit (Val 1)) False), Render (Val 0) default_size,
       Call (SetState (Lit (Val 2)) False), Render (Val 0) default_size]) =
     \<lparr>past = [Val 0, Val 1], present = Val 2, future = []\<rparr> \<and>
   fst (undo (history (Val (0::int)) default_size
      [Call (SetState (Lit (Val 1)) False), Render (Val 0) default_size,
       Call (SetState (Lit (Val 2)) False), Render (Val 0) default_size])) = Inr () \<and>
   state (history (Val (0::int)) default_size
      [Call (SetState (Lit (Val 1)) False), Render (Val 0) default_size,
       Call (SetState (Lit (Val 2)) False), Render (Val 0) default_size,
       Call Undo, Render (Val 0) default_size]) =
     \<lparr>past = [Val 0], present = Val 1, future = [Val 2]\<rparr>"
  using undo_effect[of "\<lparr>past = [Val (0::int), Val 1], present = Val 2, future = []\<rparr>"
      "Val 0" default_size "Val 0" default_size
      "[Call (SetState (Lit (Val 1)) False), Render (Val 0) default_size,
        Call (SetState (Lit (Val 2)) False), Render (Val 0) default_size]"]
  by (simp add: hook_defs)

text \<open>
  C7 states that reset gives back the value the hook was constructed with. The code keeps
  no such value: \<open>initState\<close> is built by every run of the hook's body from the \<open>value\<close> of
  that run, and the reducer returns the \<open>initState\<close> of the render that applies the
  action. A hook first rendered with \<open>0\<close> and rendered again with \<open>5\<close> is reset to \<open>5\<close>.
\<close>

theorem reset_baseline_counterexample:
  "state (history (Val (0::int)) default_size
      [Call (SetState (Lit (Val 1)) False), Render (Val 5) default_size,
       Call Reset, Render (Val 5) default_size]) =
     \<lparr>past = [], present = Val 5, future = []\<rparr> \<and>
   present (state (history (Val (0::int)) default_size
      [Call (SetState (Lit (Val 1)) False), Render (Val 5) default_size,
       Call Reset, Render (Val 5) default_size])) \<noteq> Val 0"
  by (simp add: hook_defs)

text \<open>
  C7, amended: reset gives the baseline state built from the \<open>value\<close> of the render that
  applies it: \<open>present\<close> is that value and \<open>past\<close> and \<open>future\<close> are empty, from any state of
  the reducer and from any hook, whatever its history and its queue; the current state
  is not consulted. Where every render is given the same \<open>value\<close>, this is the
  construction value.
\<close>

theorem reset_baseline:
  "reducer value size' s RESET = \<lparr>past = [], present = value, future = []\<rparr> \<and>
   state (useHistoryState value size' (Some (reset h))) =
     \<lparr>past = [], present = value, future = []\<rparr> \<and>
   state (history value0 size0 (es @ [Call Reset, Render value size'])) = initState value \<and>
   state (history value size0 (es @ [Call Reset, Render value size'])) =
     state (history value size0 [])"
  by (simp add: history_def run_append reset_def render_dispatch state_mount initState_def
        del: reducer.simps) (simp add: initState_def)

text \<open>
  C8: a silent set changes \<open>present\<close> only: \<open>past\<close> and \<open>future\<close> are the same lists as before,
  for every state and every argument of \<open>setState\<close>; on the hook, the render after a silent
  \<open>setState\<close> has the \<open>past\<close> and the \<open>future\<close> it would have had without the call.
\<close>

theorem silent_set_frame:
  "past (reducer value size' s (SET_NOT_UNDOABLE v)) = past s \<and>
   future (reducer value size' s (SET_NOT_UNDOABLE v)) = future s \<and>
   present (reducer value size' s (SET_NOT_UNDOABLE v)) = v \<and>
   past (state (useHistoryState value size' (Some (setState h payload True)))) =
     past (state (useHistoryState value size' (Some h))) \<and>
   future (state (useHistoryState value size' (Some (setState h payload True)))) =
     future (state (useHistoryState value size' (Some h))) \<and>
   present (state (useHistoryState value size' (Some (setState h (Lit v) True)))) = v"
  by (simp add: setState_def Let_def render_dispatch)

text \<open>
  C9 states that an updater is applied to the \<open>present\<close> at the time of the call. The
  memoized \<open>setState\<close> has no dependencies, so its \<open>state\<close> is the one of the first render and
  the updater is applied to the \<open>value\<close> of the first render: after \<open>set(5)\<close> on a hook built
  with \<open>0\<close>, the call \<open>set((prev) => prev + 1)\<close> makes \<open>present\<close> equal to \<open>1\<close>, where \<open>set(6)\<close>
  makes it \<open>6\<close>.
\<close>

theorem setState_updater_stale:
  "setState (history value size' es) (Fn f) n =
     setState (history value size' es) (Lit (f value)) n \<and>
   present (state (history (Val (0::int)) default_size
      [Call (SetState (Lit (Val 5)) False), Render (Val 0) default_size])) = Val 5 \<and>
   state (history (Val (0::int)) default_size
      [Call (SetState (Lit (Val 5)) False), Render (Val 0) default_size,
       Call (SetState (Fn (map_js (\<lambda>prev. prev + 1))) False), Render (Val 0) default_size]) =
     \<lparr>past = [Val 0, Val 5], present = Val 1, future = []\<rparr> \<and>
   state (history (Val (0::int)) default_size
      [Call (SetState (Lit (Val 5)) False), Render (Val 0) default_size,
       Call (SetState (Lit (Val 6)) False), Render (Val 0) default_size]) =
     \<lparr>past = [Val 0, Val 5], present = Val 6, future = []\<rparr>"
proof
  show "setState (history value size' es) (Fn f) n =
     setState (history value size' es) (Lit (f value)) n"
    using synced_history by (rule setState_synced)
qed (simp add: hook_defs)

subsection \<open>Errors and the round trip\<close>

text \<open>
  C5 states that \<open>undo\<close> fails exactly when \<open>past\<close> is empty and \<open>redo\<close> exactly when \<open>future\<close>
  is empty. The guards test \<open>canUndo\<close> and \<open>canRedo\<close>, which are computed by the latest
  render, not the state the action will be applied to. On a hook with \<open>past = [0]\<close>,
  \<open>present = 1\<close>, two calls of \<open>undo\<close> before the next render both return normally: the
  second is applied to the \<open>past\<close> the first has emptied and leaves \<open>present\<close> undefined. A
  call of \<open>redo\<close> right after the first \<open>undo\<close> throws, although that \<open>undo\<close> has filled
  \<open>future\<close>.
\<close>

theorem undo_guard_stale:
  "state (history (Val (0::int)) default_size
      [Call (SetState (Lit (Val 1)) False), Render (Val 0) default_size]) =
     \<lparr>past = [Val 0], present = Val 1, future = []\<rparr> \<and>
   fst (call (history (Val (0::int)) default_size
      [Call (SetState (Lit (Val 1)) False), Render (Val 0) default_size, Call Undo]) Undo) =
     Inr () \<and>
   state (history (Val (0::int)) default_size
      [Call (SetState (Lit (Val 1)) False), Render (Val 0) default_size,
       Call Undo, Call Undo, Render (Val 0) default_size]) =
     \<lparr>past = [], present = Undefined, future = [Val 1, Val 0]\<rparr> \<and>
   call (history (Val (0::int)) default_size
      [Call (SetState (Lit (Val 1)) False), Render (Val 0) default_size, Call Undo]) Redo =
     (Inl (Error ''Redo not allowed''), history (Val 0) default_size
      [Call (SetState (Lit (Val 1)) False), Render (Val 0) default_size, Call Undo]) \<and>
   state (history (Val (0::int)) default_size
      [Call (SetState (Lit (Val 1)) False), Render (Val 0) default_size,
       Call Undo, Render (Val 0) default_size]) =
     \<lparr>past = [], present = Val 0, future = [Val 1]\<rparr>"
  by (simp add: hook_defs)

text \<open>
  C6: in a state with a non-empty \<open>past\<close>, undo followed at once by redo gives back the
  \<open>present\<close> held before the undo. On a hook whose latest render has this state, with a
  render after each call, both calls return normally and the last render has the
  \<open>present\<close> that the undo was applied to (the \<open>present\<close> of the latest render when nothing
  else was queued).
\<close>

theorem undo_redo_roundtrip:
  assumes "past s \<noteq> []"
  shows "present (reducer value size' (reducer value size' s UNDO) REDO) = present s \<and>
         (state (history value0 size0 es) = s \<longrightarrow>
          fst (undo (history value0 size0 es)) = Inr () \<and>
          fst (redo (useHistoryState value size'
            (Some (snd (undo (history value0 size0 es)))))) = Inr () \<and>
          present (state (useHistoryState value size' (Some (snd (redo
            (useHistoryState value size'
              (Some (snd (undo (history value0 size0 es)))))))))) =
            present (state (useHistoryState value size' (Some (history value0 size0 es)))))"
proof (intro conjI impI)
  have rt: "present (reducer value size' (reducer value size' t UNDO) REDO) = present t" for t
  proof -
    have "future (reducer value size' t UNDO) = future t @ [present t]" by simp
    then show ?thesis
      using present_REDO[of "reducer value size' t UNDO" "value" size']
      by (simp only: last_snoc snoc_eq_iff_butlast simp_thms)
  qed
  show "present (reducer value size' (reducer value size' s UNDO) REDO) = present s"
    by (rule rt)
  let ?h = "history value0 size0 es"
  let ?t = "state (useHistoryState value size' (Some ?h))"
  let ?h1 = "useHistoryState value size' (Some (snd (undo ?h)))"
  assume s: "state ?h = s"
  have h: "synced value0 ?h" by (rule synced_history)
  then have u: "undo ?h = (Inr (), dispatch ?h UNDO)"
    using assms s by (simp add: undo_synced)
  then show "fst (undo ?h) = Inr ()" by simp
  have s1: "state ?h1 = reducer value size' ?t UNDO"
    using u by (simp only: snd_conv render_dispatch)
  have "synced value0 (dispatch ?h UNDO)" using h by (rule synced_dispatch)
  then have y1: "synced value0 ?h1" using u by (simp add: synced_render)
  have "future (state ?h1) \<noteq> []" using s1 by simp
  then have r: "redo ?h1 = (Inr (), dispatch ?h1 REDO)"
    using y1 by (simp add: redo_synced)
  then show "fst (redo ?h1) = Inr ()" by simp
  have "state (useHistoryState value size' (Some (snd (redo ?h1)))) =
      reducer value size' (reducer value size' ?t UNDO) REDO"
    using r s1
    by (simp add: state_render state_dispatch queue_dispatch queue_render del: reducer.simps)
  then show "present (state (useHistoryState value size' (Some (snd (redo ?h1))))) = present ?t"
    using rt[of ?t] by (simp only:)
qed

theorem undo_redo_roundtrip_witness:
  "state (history (Val (0::int)) default_size
      [Call (SetState (Lit (Val 1)) False), Render (Val 0) default_size,
       Call (SetState (Lit (Val 2)) False), Render (Val 0) default_size]) =
     \<lparr>past = [Val 0, Val 1], present = Val 2, future = []\<rparr> \<and>
   state (history (Val (0::int)) default_size
      [Call (SetState (Lit (Val 1)) False), Render (Val 0) default_size,
       Call (SetState (Lit (Val 2)) False), Render (Val 0) default_size,
       Call Undo, Render (Val 0) default_size, Call Redo, Render (Val 0) default_size]) =
     \<lparr>past = [Val 1], present = Val 2, future = []\<rparr>"
  using undo_redo_roundtrip[of "\<lparr>past = [Val (0::int), Val 1], present = Val 2, future = []\<rparr>"
      "Val 0" default_size "Val 0" default_size
      "[Call (SetState (Lit (Val 1)) False), Render (Val 0) default_size,
        Call (SetState (Lit (Val 2)) False), Render (Val 0) default_size]"]
  by (simp add: hook_defs)

end
